theory Spec2Isabelle
  imports Main
begin

section \<open>Data model\<close>

text \<open>
  The parsed tree that \<^verbatim>\<open>ical.js\<close> hands to \<^verbatim>\<open>updateFields\<close>: a named component with an
  ordered sequence of properties and an ordered sequence of sub-components. A property
  has a name, optional parameters and a value.
\<close>

datatype property = Property (pname: string) (pparams: "(string \<times> string) list") (pvalue: string)

datatype component = Component (cname: string) (cprops: "property list") (csubs: "component list")

text \<open>
  \<^verbatim>\<open>FieldUpdates\<close> (\<^verbatim>\<open>{ [key: string]: string }\<close>) is kept as the list of its entries in the
  order \<^verbatim>\<open>Object.entries\<close> enumerates them. The keys of a JavaScript object are pairwise
  different strings.
\<close>

type_synonym fieldUpdates = "(string \<times> string) list"

text \<open>
  A JavaScript value, as far as the call can tell values apart: the primitives with their
  truth value, and objects. Numbers are integers here, and \<^verbatim>\<open>NaN\<close>.
\<close>

datatype js_value =
    JSUndefined
  | JSNull
  | JSBoolean bool
  | JSNumber int
  | JSNaN
  | JSString string
  | JSObject "(string \<times> js_value) list"

text \<open>
  \<^verbatim>\<open>CalendarObjectInput = string | { data: string; [key: string]: any }\<close>. The declared
  type of \<^verbatim>\<open>data\<close> is not checked at run time (the test suite passes \<^verbatim>\<open>{ url: 'test.ics' }\<close>
  through \<^verbatim>\<open>as any\<close>, and tsdav declares \<^verbatim>\<open>data?: any\<close>), so \<open>data\<close> is any value, \<open>JSUndefined\<close>
  when the field is absent.
\<close>

datatype calendarObjectInput =
    IcalString string
  | DavObject (data: js_value) (otherFields: "(string \<times> js_value) list")

text \<open>A thrown \<^verbatim>\<open>new Error(message)\<close>.\<close>

datatype error = Error (message: string)

text \<open>
  The collaborators of \<^verbatim>\<open>updateFields\<close> that are not among the sources are parameters.
  \<open>parse\<close> stands for \<^verbatim>\<open>new ICAL.Component(ICAL.parse(icalString))\<close>, the two calls inside
  the \<^verbatim>\<open>try\<close> block, on whatever value \<^verbatim>\<open>icalString\<close> holds, with \<open>Inl msg\<close> for a thrown
  error whose message is \<open>msg\<close>. \<open>toString\<close> stands for \<^verbatim>\<open>component.toString()\<close>, a text for
  every tree. \<open>toLowerCase\<close> stands for \<^verbatim>\<open>String.prototype.toLowerCase\<close> of the runtime, with
  its Unicode case mapping.
\<close>

record engine =
  parse :: "js_value \<Rightarrow> string + component"
  toString :: "component \<Rightarrow> string"
  toLowerCase :: "string \<Rightarrow> string"

section \<open>Tree operations of the engine\<close>

text \<open>
  The search loop of the engine's lookups: the position of the first element of a list
  that satisfies a test, \<open>None\<close> when there is none.
\<close>

fun indexOfFirst :: "('a \<Rightarrow> bool) \<Rightarrow> 'a list \<Rightarrow> nat option" where
  "indexOfFirst P [] = None"
| "indexOfFirst P (x # xs) = (if P x then Some 0 else map_option Suc (indexOfFirst P xs))"

text \<open>
  Modelled from the spec: \<^verbatim>\<open>Component.getFirstSubcomponent(name)\<close> of ical.js, which is not
  among the sources. The spec's engine interface: "find first immediate child node of a
  given type name". The result is the position of that child in the parent, which stands
  for the reference into the tree that the JavaScript object is; \<open>None\<close> is \<^verbatim>\<open>null\<close>.
\<close>

definition getFirstSubcomponent :: "component \<Rightarrow> string \<Rightarrow> nat option" where
  "getFirstSubcomponent c name = indexOfFirst (\<lambda>s. cname s = name) (csubs c)"

text \<open>
  Modelled from the spec: \<^verbatim>\<open>Component.updatePropertyWithValue(name, value)\<close> of ical.js, which
  is not among the sources. The spec's engine interface: "upsert a property (name, value)
  on a node preserving all other properties and their order"; "if a property with that
  name already exists, its value is replaced [...]. If no such property exists, a new one
  is appended"; "an upsert targets a single property instance", here the first one of
  that name.
\<close>

definition updatePropertyWithValue :: "component \<Rightarrow> string \<Rightarrow> string \<Rightarrow> component" where
  "updatePropertyWithValue c name v =
     (case indexOfFirst (\<lambda>p. pname p = name) (cprops c) of
        Some i \<Rightarrow>
          Component (cname c)
            ((cprops c)[i := Property (pname (cprops c ! i)) (pparams (cprops c ! i)) v])
            (csubs c)
      | None \<Rightarrow> Component (cname c) (cprops c @ [Property name [] v]) (csubs c))"

section \<open>updateFields\<close>

definition invalidInputMessage :: string where
  "invalidInputMessage =
     ''Invalid input: calendarObject must be a string or object with \"data\" field''"

definition parseFailurePrefix :: string where
  "parseFailurePrefix = ''Failed to parse iCal data: ''"

definition noComponentMessage :: string where
  "noComponentMessage = ''No VEVENT, VTODO, or VJOURNAL found in VCALENDAR''"

text \<open>
  Step 1: the value of \<^verbatim>\<open>icalString\<close>, and the test \<^verbatim>\<open>!icalString\<close>, which holds of
  \<^verbatim>\<open>undefined\<close>, \<^verbatim>\<open>null\<close>, \<^verbatim>\<open>false\<close>, \<^verbatim>\<open>0\<close>, \<^verbatim>\<open>NaN\<close> and the empty string.
\<close>

definition icalStringOf :: "calendarObjectInput \<Rightarrow> js_value" where
  "icalStringOf calendarObject =
     (case calendarObject of IcalString s \<Rightarrow> JSString s | DavObject d other \<Rightarrow> d)"

fun falsy :: "js_value \<Rightarrow> bool" where
  "falsy JSUndefined = True"
| "falsy JSNull = True"
| "falsy (JSBoolean b) = (\<not> b)"
| "falsy (JSNumber n) = (n = 0)"
| "falsy JSNaN = True"
| "falsy (JSString s) = (s = [])"
| "falsy (JSObject fs) = False"

text \<open>
  Step 3: which node \<^verbatim>\<open>actualComponent\<close> refers to, the root or the sub-component at a
  position. The JavaScript \<^verbatim>\<open>a || b || c\<close> takes the first result that is not \<^verbatim>\<open>null\<close>.
\<close>

datatype componentRef = Root | Sub nat

definition findActualComponent :: "component \<Rightarrow> error + componentRef" where
  "findActualComponent component =
     (if cname component = ''vcalendar'' then
        (case getFirstSubcomponent component ''vevent'' of
           Some i \<Rightarrow> Inr (Sub i)
         | None \<Rightarrow>
            (case getFirstSubcomponent component ''vtodo'' of
               Some i \<Rightarrow> Inr (Sub i)
             | None \<Rightarrow>
                (case getFirstSubcomponent component ''vjournal'' of
                   Some i \<Rightarrow> Inr (Sub i)
                 | None \<Rightarrow> Inl (Error noComponentMessage))))
      else Inr Root)"

fun deref :: "component \<Rightarrow> componentRef \<Rightarrow> component" where
  "deref c Root = c"
| "deref c (Sub i) = csubs c ! i"

text \<open>A mutation of the node behind a reference, seen from the root of the tree.\<close>

fun mutate :: "componentRef \<Rightarrow> (component \<Rightarrow> component) \<Rightarrow> component \<Rightarrow> component" where
  "mutate Root f c = f c"
| "mutate (Sub i) f c = Component (cname c) (cprops c) ((csubs c)[i := f (csubs c ! i)])"

text \<open>
  Step 4: the loop over \<^verbatim>\<open>Object.entries(fields)\<close>. The argument \<^verbatim>\<open>fields\<close> is written
  \<open>fieldMap\<close> below, \<open>fields\<close> being a constant of the record package.
\<close>

fun updateAll :: "engine \<Rightarrow> component \<Rightarrow> fieldUpdates \<Rightarrow> component" where
  "updateAll eng a [] = a"
| "updateAll eng a ((key, v) # rest) =
     updateAll eng (updatePropertyWithValue a (toLowerCase eng key) v) rest"

text \<open>Steps 3 and 4 on the parsed tree: the tree that step 5 serialises.\<close>

definition updatedComponent :: "engine \<Rightarrow> component \<Rightarrow> fieldUpdates \<Rightarrow> error + component" where
  "updatedComponent eng component fieldMap =
     (case findActualComponent component of
        Inl e \<Rightarrow> Inl e
      | Inr r \<Rightarrow> Inr (mutate r (\<lambda>a. updateAll eng a fieldMap) component))"

definition updateFields :: "engine \<Rightarrow> calendarObjectInput \<Rightarrow> fieldUpdates \<Rightarrow> error + string" where
  "updateFields eng calendarObject fieldMap =
     (let icalString = icalStringOf calendarObject in
      if falsy icalString then Inl (Error invalidInputMessage)
      else
        (case parse eng icalString of
           Inl msg \<Rightarrow> Inl (Error (parseFailurePrefix @ msg))
         | Inr component \<Rightarrow>
            (case updatedComponent eng component fieldMap of
               Inl e \<Rightarrow> Inl e
             | Inr component' \<Rightarrow> Inr (toString eng component'))))"

section \<open>updateFields on the heap\<close>

text \<open>
  The objects of the JavaScript heap that the call can reach: the wrapper objects of the
  caller, and the parsed tree that the engine builds; a value of type \<^verbatim>\<open>string\<close> is a
  primitive and is passed as it is. The heap is the list of its objects, an address is a
  position in it, and a new object goes to the end.
\<close>

datatype js_object =
    WrapperObject js_value "(string \<times> js_value) list"
  | ComponentObject component

type_synonym heap = "js_object list"

datatype calendarObjectArg = StringArg string | ObjectArg nat

text \<open>
  The argument as a value: what the caller sees of its object. An address that holds no
  wrapper object is not an argument a caller can pass.
\<close>

definition readInput :: "heap \<Rightarrow> calendarObjectArg \<Rightarrow> calendarObjectInput option" where
  "readInput h calendarObject =
     (case calendarObject of
        StringArg s \<Rightarrow> Some (IcalString s)
      | ObjectArg a \<Rightarrow>
          if a < length h then
            (case h ! a of
               WrapperObject d other \<Rightarrow> Some (DavObject d other)
             | ComponentObject c \<Rightarrow> None)
          else None)"

text \<open>
  The tree behind the variable \<^verbatim>\<open>component\<close>, and a mutation of the node that
  \<^verbatim>\<open>actualComponent\<close> refers to, written to the heap.
\<close>

definition componentAt :: "heap \<Rightarrow> nat \<Rightarrow> component" where
  "componentAt h t =
     (case h ! t of ComponentObject c \<Rightarrow> c | WrapperObject d other \<Rightarrow> Component [] [] [])"

definition mutateAt :: "nat \<Rightarrow> componentRef \<Rightarrow> (component \<Rightarrow> component) \<Rightarrow> heap \<Rightarrow> heap" where
  "mutateAt t r f h = h[t := ComponentObject (mutate r f (componentAt h t))]"

fun updateLoop :: "engine \<Rightarrow> nat \<Rightarrow> componentRef \<Rightarrow> fieldUpdates \<Rightarrow> heap \<Rightarrow> heap" where
  "updateLoop eng t r [] h = h"
| "updateLoop eng t r ((key, v) # rest) h =
     updateLoop eng t r rest
       (mutateAt t r (\<lambda>a. updatePropertyWithValue a (toLowerCase eng key) v) h)"

text \<open>
  \<^verbatim>\<open>updateFields\<close> with the heap passed through: steps 1 to 5 as above, the tree allocated
  by the parser and updated in place by the loop.
\<close>

definition updateFieldsInHeap ::
  "engine \<Rightarrow> calendarObjectArg \<Rightarrow> fieldUpdates \<Rightarrow> heap \<Rightarrow> (error + string) \<times> heap" where
  "updateFieldsInHeap eng calendarObject fieldMap h =
     (let icalString =
        (case readInput h calendarObject of None \<Rightarrow> JSUndefined | Some input \<Rightarrow> icalStringOf input)
      in
      if falsy icalString then (Inl (Error invalidInputMessage), h)
      else
        (case parse eng icalString of
           Inl msg \<Rightarrow> (Inl (Error (parseFailurePrefix @ msg)), h)
         | Inr component \<Rightarrow>
            (let t = length h; h1 = h @ [ComponentObject component] in
             case findActualComponent component of
               Inl e \<Rightarrow> (Inl e, h1)
             | Inr r \<Rightarrow>
                (let h2 = updateLoop eng t r fieldMap h1
                 in (Inr (toString eng (componentAt h2 t)), h2)))))"

section \<open>A test engine\<close>

text \<open>
  A small engine on which the theorems below are exercised at concrete records: a
  serialiser in the shape of the format (\<^verbatim>\<open>BEGIN:\<close>, one line per property, \<^verbatim>\<open>END:\<close>)
  and a parser that knows the serialised forms of three records, in the manner of the
  fixtures of the test suite: a calendar with a time zone, a task and two events, a
  contact, and a calendar that holds only a free/busy component.
\<close>

text \<open>The lowercasing of the test engine: the ASCII letters, which its records are written in.\<close>

definition asciiToLowerCaseChar :: "char \<Rightarrow> char" where
  "asciiToLowerCaseChar c =
     (let n = (of_char c :: nat) in if 65 \<le> n \<and> n \<le> 90 then char_of (n + 32) else c)"

definition asciiToLowerCase :: "string \<Rightarrow> string" where
  "asciiToLowerCase s = map asciiToLowerCaseChar s"

definition crlf :: string where
  "crlf = [CHR 0x0D, CHR 0x0A]"

fun propertyLine :: "property \<Rightarrow> string" where
  "propertyLine (Property n ps v) =
     n @ concat (map (\<lambda>(k, x). '';'' @ k @ ''='' @ x) ps) @ '':'' @ v @ crlf"

fun fixtureToString :: "component \<Rightarrow> string" where
  "fixtureToString (Component n ps cs) =
     ''BEGIN:'' @ n @ crlf @ concat (map propertyLine ps) @ concat (map fixtureToString cs)
       @ ''END:'' @ n @ crlf"

definition veventTree :: component where
  "veventTree =
     Component ''vcalendar'' [Property ''version'' [] ''2.0'']
       [Component ''vtimezone'' [Property ''tzid'' [] ''UTC''] [],
        Component ''vtodo'' [Property ''summary'' [] ''Task''] [],
        Component ''vevent''
          [Property ''uid'' [] ''1'', Property ''summary'' [(''language'', ''en'')] ''Original'',
           Property ''location'' [] ''Office'']
          [],
        Component ''vevent'' [Property ''summary'' [] ''Second''] []]"

definition vcardTree :: component where
  "vcardTree =
     Component ''vcard''
       [Property ''fn'' [] ''John Doe'', Property ''email'' [] ''john@example.com''] []"

definition freebusyTree :: component where
  "freebusyTree =
     Component ''vcalendar'' [Property ''version'' [] ''2.0'']
       [Component ''vfreebusy'' [Property ''uid'' [] ''2''] []]"

definition fixtureParse :: "js_value \<Rightarrow> string + component" where
  "fixtureParse v =
     (case v of
        JSString s \<Rightarrow>
          if s = fixtureToString veventTree then Inr veventTree
          else if s = fixtureToString vcardTree then Inr vcardTree
          else if s = fixtureToString freebusyTree then Inr freebusyTree
          else Inl ''invalid ical body. component began but did not end''
      | _ \<Rightarrow> Inl ''the input is not a string'')"

definition fixtureEngine :: engine where
  "fixtureEngine =
     \<lparr>parse = fixtureParse, toString = fixtureToString, toLowerCase = asciiToLowerCase\<rparr>"

text \<open>
  Field maps for the records above, and the tree the first of them leaves: two entries
  on the calendar, one for a property of the first event and one for a new property; and
  two keys that differ only in the case of their letters.
\<close>

definition siblingFields :: fieldUpdates where
  "siblingFields = [(''SUMMARY'', ''Updated''), (''X-CUSTOM-FIELD'', ''value123'')]"

definition siblingResult :: component where
  "siblingResult =
     Component ''vcalendar'' [Property ''version'' [] ''2.0'']
       [Component ''vtimezone'' [Property ''tzid'' [] ''UTC''] [],
        Component ''vtodo'' [Property ''summary'' [] ''Task''] [],
        Component ''vevent''
          [Property ''uid'' [] ''1'', Property ''summary'' [(''language'', ''en'')] ''Updated'',
           Property ''location'' [] ''Office'', Property ''x-custom-field'' [] ''value123'']
          [],
        Component ''vevent'' [Property ''summary'' [] ''Second''] []]"

definition caseVariantFields :: fieldUpdates where
  "caseVariantFields = [(''FN'', ''Jane Doe''), (''fn'', ''Janet Doe'')]"

text \<open>A wrapper object as \<^verbatim>\<open>fetchCalendarObjects\<close> of tsdav returns it.\<close>

definition davObject :: js_object where
  "davObject =
     WrapperObject (JSString (fixtureToString veventTree))
       [(''etag'', JSString ''abc123''),
        (''url'', JSString ''https://example.com/calendar/event.ics'')]"

section \<open>A line-oriented engine\<close>

text \<open>
  Modelled from the spec: the parsing and serialisation engine (ical.js), which is not
  among the sources. The spec's engine interface: "parse(text) \<rightarrow> tree, failing with a
  descriptive error on malformed input" and "serialize(tree) \<rightarrow> text", for a "line-oriented,
  property-per-line textual format" whose property names "are case-insensitive; the
  canonical form for lookup/update is lowercase". The lines are those of the fixtures of
  the repository: \<^verbatim>\<open>BEGIN:NAME\<close> and \<^verbatim>\<open>END:NAME\<close> around a component, and
  \<^verbatim>\<open>NAME;PARAM=text:value\<close> for a property. Names are read case-insensitively and kept in
  lowercase, and written in uppercase; a line ends with a line feed, after an optional
  carriage return, and is written with both; empty lines are skipped. Folded lines,
  escapes and quoted parameters are left out.
\<close>

definition asciiToUpperCaseChar :: "char \<Rightarrow> char" where
  "asciiToUpperCaseChar c =
     (let n = (of_char c :: nat) in if 97 \<le> n \<and> n \<le> 122 then char_of (n - 32) else c)"

definition asciiToUpperCase :: "string \<Rightarrow> string" where
  "asciiToUpperCase s = map asciiToUpperCaseChar s"

fun splitOn :: "char \<Rightarrow> string \<Rightarrow> string list" where
  "splitOn d [] = [[]]"
| "splitOn d (c # cs) =
     (if c = d then [] # splitOn d cs
      else (case splitOn d cs of [] \<Rightarrow> [[c]] | l # ls \<Rightarrow> (c # l) # ls))"

definition chomp :: "string \<Rightarrow> string" where
  "chomp l = (if l \<noteq> [] \<and> last l = CHR 0x0D then butlast l else l)"

definition contentLines :: "string \<Rightarrow> string list" where
  "contentLines s = map chomp (splitOn (CHR 0x0A) s)"

datatype item = Begin string | End string | Prop property | Blank | Malformed string

fun parseParams :: "string list \<Rightarrow> (string \<times> string) list option" where
  "parseParams [] = Some []"
| "parseParams (seg # segs) =
     (case dropWhile (\<lambda>c. c \<noteq> CHR ''='') seg of
        [] \<Rightarrow> None
      | e # x \<Rightarrow>
          map_option
            (\<lambda>ps. (asciiToLowerCase (takeWhile (\<lambda>c. c \<noteq> CHR ''='') seg), x) # ps)
            (parseParams segs))"

definition classify :: "string \<Rightarrow> item" where
  "classify l =
     (if l = [] then Blank
      else
        (case dropWhile (\<lambda>c. c \<noteq> CHR '':'') l of
           [] \<Rightarrow> Malformed l
         | colon # v \<Rightarrow>
            (case splitOn (CHR '';'') (takeWhile (\<lambda>c. c \<noteq> CHR '':'') l) of
               [] \<Rightarrow> Malformed l
             | name # segs \<Rightarrow>
                if segs = [] \<and> asciiToLowerCase name = ''begin'' then Begin (asciiToLowerCase v)
                else if segs = [] \<and> asciiToLowerCase name = ''end'' then End (asciiToLowerCase v)
                else
                  (case parseParams segs of
                     None \<Rightarrow> Malformed l
                   | Some ps \<Rightarrow> Prop (Property (asciiToLowerCase name) ps v)))))"

datatype frame = Frame string "property list" "component list"

fun attach :: "component \<Rightarrow> frame list \<times> component list \<Rightarrow> frame list \<times> component list" where
  "attach c ([], roots) = ([], roots @ [c])"
| "attach c (Frame m ps cs # fs, roots) = (Frame m ps (cs @ [c]) # fs, roots)"

fun step :: "item \<Rightarrow> frame list \<times> component list \<Rightarrow> string + frame list \<times> component list" where
  "step Blank st = Inr st"
| "step (Malformed l) st = Inl (''invalid line (no token \";\" or \":\") '' @ l)"
| "step (Begin n) (fs, roots) = Inr (Frame n [] [] # fs, roots)"
| "step (Prop p) ([], roots) = Inl ''invalid ical body. property outside of a component''"
| "step (Prop p) (Frame m ps cs # fs, roots) = Inr (Frame m (ps @ [p]) cs # fs, roots)"
| "step (End n) ([], roots) = Inl ''invalid ical body. component ended but did not begin''"
| "step (End n) (Frame m ps cs # fs, roots) =
     (if m = n then Inr (attach (Component m ps cs) (fs, roots))
      else Inl ''invalid ical body. component began but did not end'')"

fun run :: "item list \<Rightarrow> frame list \<times> component list \<Rightarrow> string + frame list \<times> component list" where
  "run [] st = Inr st"
| "run (i # is) st = (case step i st of Inl e \<Rightarrow> Inl e | Inr st' \<Rightarrow> run is st')"

text \<open>
  Modelled from the spec: \<^verbatim>\<open>ICAL.parse\<close> with the \<^verbatim>\<open>Component\<close> constructor of ical.js, not among
  the sources; "parse(text) \<rightarrow> tree, failing with a descriptive error on malformed input".
  The lines are read in order against the stack of open components, and the text must
  hold one component, closed.
\<close>

definition parseText :: "string \<Rightarrow> string + component" where
  "parseText s =
     (case run (map classify (contentLines s)) ([], []) of
        Inl e \<Rightarrow> Inl e
      | Inr (fs, roots) \<Rightarrow>
          if fs \<noteq> [] then Inl ''invalid ical body. component began but did not end''
          else (case roots of [c] \<Rightarrow> Inr c | _ \<Rightarrow> Inl ''invalid ical body. one component expected''))"

fun renderParam :: "string \<times> string \<Rightarrow> string" where
  "renderParam (k, x) = asciiToUpperCase k @ CHR ''='' # x"

fun render :: "item \<Rightarrow> string" where
  "render (Begin n) = ''BEGIN:'' @ asciiToUpperCase n"
| "render (End n) = ''END:'' @ asciiToUpperCase n"
| "render (Prop (Property n ps v)) =
     asciiToUpperCase n @ concat (map (\<lambda>p. CHR '';'' # renderParam p) ps) @ CHR '':'' # v"
| "render Blank = []"
| "render (Malformed l) = l"

fun items :: "component \<Rightarrow> item list" where
  "items (Component n ps cs) = Begin n # map Prop ps @ concat (map items cs) @ [End n]"

text \<open>
  Modelled from the spec: \<^verbatim>\<open>Component.toString\<close> of ical.js, not among the sources;
  "serialize(tree) \<rightarrow> text". The whole tree is written, a line for every item.
\<close>

definition printText :: "component \<Rightarrow> string" where
  "printText c = concat (map (\<lambda>i. render i @ [CHR 0x0D, CHR 0x0A]) (items c))"

text \<open>
  Modelled from the spec: the engine as \<^verbatim>\<open>updateFields\<close> uses it. A value that is not a
  string is refused by the parser.
\<close>

definition lineEngine :: engine where
  "lineEngine =
     \<lparr>parse = (\<lambda>v. case v of JSString s \<Rightarrow> parseText s | _ \<Rightarrow> Inl ''the input is not a string''),
      toString = printText, toLowerCase = asciiToLowerCase\<rparr>"



section \<open>Notions used in the statements\<close>

text \<open>Position \<open>i\<close> holds the first component of the list that has the given name.\<close>

definition isFirstNamed :: "string \<Rightarrow> component list \<Rightarrow> nat \<Rightarrow> bool" where
  "isFirstNamed name cs i =
     (i < length cs \<and> cname (cs ! i) = name \<and> (\<forall>x\<in>set (take i cs). cname x \<noteq> name))"

text \<open>The position of the first property of a component that has the given name.\<close>

definition firstPropertyIndex :: "component \<Rightarrow> string \<Rightarrow> nat option" where
  "firstPropertyIndex c name = indexOfFirst (\<lambda>p. pname p = name) (cprops c)"

text \<open>
  The names under which the loop stores the entries of a field map: the lowercased keys.
  A property name is a key of the field map, up to the case of letters, when its
  lowercased form is one of them.
\<close>

definition storedNames :: "engine \<Rightarrow> fieldUpdates \<Rightarrow> string list" where
  "storedNames eng fieldMap = map (\<lambda>(key, v). toLowerCase eng key) fieldMap"

definition isKey :: "engine \<Rightarrow> fieldUpdates \<Rightarrow> string \<Rightarrow> bool" where
  "isKey eng fieldMap name = (toLowerCase eng name \<in> set (storedNames eng fieldMap))"

text \<open>
  The tree without the properties, at any depth, whose name passes a test: what is left
  keeps its values, its parameters, its order and its place in the tree.
\<close>

fun without :: "(string \<Rightarrow> bool) \<Rightarrow> component \<Rightarrow> component" where
  "without P (Component n ps cs) =
     Component n (filter (\<lambda>p. \<not> P (pname p)) ps) (map (without P) cs)"

text \<open>
  The trees that the line-oriented engine builds: names in lowercase, and no piece that
  holds a character which ends the piece in a line. A character below the letters is
  the same in either case.
\<close>

definition plain :: "char \<Rightarrow> bool" where
  "plain c = ((of_char c :: nat) < 65)"

definition wfName :: "string \<Rightarrow> bool" where
  "wfName n = (asciiToLowerCase n = n \<and> CHR 0x0A \<notin> set n)"

definition wfToken :: "string \<Rightarrow> bool" where
  "wfToken n = (wfName n \<and> CHR '':'' \<notin> set n \<and> CHR '';'' \<notin> set n)"

fun wfParam :: "string \<times> string \<Rightarrow> bool" where
  "wfParam (k, x) =
     (wfToken k \<and> CHR ''='' \<notin> set k \<and>
      CHR 0x0A \<notin> set x \<and> CHR '':'' \<notin> set x \<and> CHR '';'' \<notin> set x)"

fun wfProperty :: "property \<Rightarrow> bool" where
  "wfProperty (Property n ps v) =
     (wfToken n \<and> (\<forall>p\<in>set ps. wfParam p) \<and> CHR 0x0A \<notin> set v \<and>
      \<not> (ps = [] \<and> (n = ''begin'' \<or> n = ''end'')))"

fun wfComponent :: "component \<Rightarrow> bool" where
  "wfComponent (Component n ps cs) =
     (wfName n \<and> (\<forall>p\<in>set ps. wfProperty p) \<and> (\<forall>c\<in>set cs. wfComponent c))"




section \<open>Evaluation and basic facts\<close>

lemmas fixture_defs =
  updateFields_def Let_def icalStringOf_def fixtureEngine_def fixtureParse_def vcardTree_def
  veventTree_def freebusyTree_def updatedComponent_def findActualComponent_def
  getFirstSubcomponent_def updatePropertyWithValue_def asciiToLowerCase_def
  asciiToLowerCaseChar_def char_of_def bit_Suc_0_iff crlf_def invalidInputMessage_def
  parseFailurePrefix_def noComponentMessage_def isFirstNamed_def firstPropertyIndex_def
  isKey_def storedNames_def

lemma indexOfFirst_None_iff: "indexOfFirst P xs = None \<longleftrightarrow> (\<forall>x\<in>set xs. \<not> P x)"
  by (induction xs) auto

lemma indexOfFirst_Some_iff:
  "indexOfFirst P xs = Some i \<longleftrightarrow>
     i < length xs \<and> P (xs ! i) \<and> (\<forall>x\<in>set (take i xs). \<not> P x)"
proof (induction xs arbitrary: i)
  case Nil
  show ?case by simp
next
  case (Cons x xs)
  show ?case
  proof (cases "P x")
    case True
    then show ?thesis by (cases i) auto
  next
    case False
    then show ?thesis using Cons.IH by (cases i) auto
  qed
qed

lemma getFirstSubcomponent_first:
  "isFirstNamed name (csubs c) i \<Longrightarrow> getFirstSubcomponent c name = Some i"
  by (simp add: getFirstSubcomponent_def isFirstNamed_def indexOfFirst_Some_iff)

lemma getFirstSubcomponent_none:
  "(\<forall>x\<in>set (csubs c). cname x \<noteq> name) \<Longrightarrow> getFirstSubcomponent c name = None"
  by (simp add: getFirstSubcomponent_def indexOfFirst_None_iff)

lemma messages_distinct:
  "parseFailurePrefix @ msg \<noteq> invalidInputMessage"
  "parseFailurePrefix @ msg \<noteq> noComponentMessage"
  "noComponentMessage \<noteq> invalidInputMessage"
  by (simp_all add: parseFailurePrefix_def invalidInputMessage_def noComponentMessage_def)

section \<open>Facts about the upsert and the loop\<close>

lemma indexOfFirst_list_update:
  "i < length xs \<Longrightarrow> P y = P (xs ! i) \<Longrightarrow> indexOfFirst P (xs[i := y]) = indexOfFirst P xs"
proof (induction xs arbitrary: i)
  case Nil
  then show ?case by simp
next
  case (Cons x xs)
  then show ?case by (cases i) auto
qed

lemma indexOfFirst_snoc:
  "indexOfFirst P (xs @ [y]) =
     (case indexOfFirst P xs of
        Some i \<Rightarrow> Some i
      | None \<Rightarrow> if P y then Some (length xs) else None)"
  by (induction xs) (auto split: option.splits)

lemma filter_list_update_dropped:
  "i < length xs \<Longrightarrow> \<not> P (xs ! i) \<Longrightarrow> \<not> P y \<Longrightarrow> filter P (xs[i := y]) = filter P xs"
proof (induction xs arbitrary: i)
  case Nil
  then show ?case by simp
next
  case (Cons x xs)
  then show ?case by (cases i) auto
qed

lemma updatePropertyWithValue_frame [simp]:
  "cname (updatePropertyWithValue a n v) = cname a"
  "csubs (updatePropertyWithValue a n v) = csubs a"
  by (simp_all add: updatePropertyWithValue_def split: option.splits)

lemma updateAll_frame [simp]:
  "cname (updateAll eng a fieldMap) = cname a"
  "csubs (updateAll eng a fieldMap) = csubs a"
  by (induction eng a fieldMap rule: updateAll.induct) simp_all

lemma updateAll_append:
  "updateAll eng a (xs @ ys) = updateAll eng (updateAll eng a xs) ys"
  by (induction eng a xs rule: updateAll.induct) simp_all

text \<open>One upsert, seen from the name it is for.\<close>

lemma upsert_same_name_index:
  "firstPropertyIndex (updatePropertyWithValue a n v) n =
     Some (case firstPropertyIndex a n of Some i \<Rightarrow> i | None \<Rightarrow> length (cprops a))"
proof (cases "indexOfFirst (\<lambda>p. pname p = n) (cprops a)")
  case None
  then show ?thesis
    by (simp add: firstPropertyIndex_def updatePropertyWithValue_def indexOfFirst_snoc)
next
  case (Some j)
  then have "j < length (cprops a)" "pname (cprops a ! j) = n"
    by (simp_all add: indexOfFirst_Some_iff)
  then show ?thesis
    using Some
    by (simp add: firstPropertyIndex_def updatePropertyWithValue_def indexOfFirst_list_update)
qed

lemma upsert_same_name_replaced:
  assumes "firstPropertyIndex a n = Some i"
  shows "cprops (updatePropertyWithValue a n v) ! i = Property n (pparams (cprops a ! i)) v"
proof -
  have "i < length (cprops a)" "pname (cprops a ! i) = n"
    using assms by (simp_all add: firstPropertyIndex_def indexOfFirst_Some_iff)
  then show ?thesis
    using assms by (simp add: firstPropertyIndex_def updatePropertyWithValue_def)
qed

lemma upsert_same_name_appended:
  assumes "firstPropertyIndex a n = None"
  shows "cprops (updatePropertyWithValue a n v) ! length (cprops a) = Property n [] v"
  using assms by (simp add: firstPropertyIndex_def updatePropertyWithValue_def)

text \<open>One upsert, seen from another name.\<close>

lemma upsert_other_name:
  assumes "m \<noteq> n"
  shows "firstPropertyIndex (updatePropertyWithValue a m w) n = firstPropertyIndex a n"
    and "firstPropertyIndex a n = Some i \<Longrightarrow> cprops (updatePropertyWithValue a m w) ! i = cprops a ! i"
proof -
  show "firstPropertyIndex (updatePropertyWithValue a m w) n = firstPropertyIndex a n"
  proof (cases "indexOfFirst (\<lambda>p. pname p = m) (cprops a)")
    case None
    then show ?thesis
      using assms
      by (simp add: firstPropertyIndex_def updatePropertyWithValue_def indexOfFirst_snoc
          split: option.splits)
  next
    case (Some j)
    then have "j < length (cprops a)" by (simp add: indexOfFirst_Some_iff)
    then show ?thesis
      using Some
      by (simp add: firstPropertyIndex_def updatePropertyWithValue_def indexOfFirst_list_update)
  qed
  assume "firstPropertyIndex a n = Some i"
  then have i: "i < length (cprops a)" "pname (cprops a ! i) = n"
    by (simp_all add: firstPropertyIndex_def indexOfFirst_Some_iff)
  show "cprops (updatePropertyWithValue a m w) ! i = cprops a ! i"
  proof (cases "indexOfFirst (\<lambda>p. pname p = m) (cprops a)")
    case None
    then show ?thesis using i by (simp add: updatePropertyWithValue_def nth_append)
  next
    case (Some j)
    then have "pname (cprops a ! j) = m" by (simp add: indexOfFirst_Some_iff)
    then have "j \<noteq> i" using i assms by auto
    then show ?thesis using Some by (simp add: updatePropertyWithValue_def)
  qed
qed

lemma upsert_length: "length (cprops a) \<le> length (cprops (updatePropertyWithValue a n v))"
  by (simp add: updatePropertyWithValue_def split: option.splits)

lemma upsert_names:
  assumes "i < length (cprops a)"
  shows "pname (cprops (updatePropertyWithValue a n v) ! i) = pname (cprops a ! i)"
proof (cases "indexOfFirst (\<lambda>p. pname p = n) (cprops a)")
  case None
  then show ?thesis using assms by (simp add: updatePropertyWithValue_def nth_append)
next
  case (Some j)
  then have "j < length (cprops a)" by (simp add: indexOfFirst_Some_iff)
  then show ?thesis
    using Some by (simp add: updatePropertyWithValue_def nth_list_update)
qed

lemma upsert_without:
  assumes "P n"
  shows "filter (\<lambda>p. \<not> P (pname p)) (cprops (updatePropertyWithValue a n v)) =
    filter (\<lambda>p. \<not> P (pname p)) (cprops a)"
proof (cases "indexOfFirst (\<lambda>p. pname p = n) (cprops a)")
  case None
  then show ?thesis using assms by (simp add: updatePropertyWithValue_def)
next
  case (Some i)
  then have "i < length (cprops a)" "pname (cprops a ! i) = n"
    by (simp_all add: indexOfFirst_Some_iff)
  then show ?thesis
    using Some assms by (simp add: updatePropertyWithValue_def filter_list_update_dropped)
qed

lemma updateAll_without_props:
  "\<forall>n\<in>set (storedNames eng fieldMap). P n \<Longrightarrow>
   filter (\<lambda>p. \<not> P (pname p)) (cprops (updateAll eng a fieldMap)) =
   filter (\<lambda>p. \<not> P (pname p)) (cprops a)"
proof (induction eng a fieldMap rule: updateAll.induct)
  case (1 eng a)
  show ?case by simp
next
  case (2 eng a key v rest)
  have "P (toLowerCase eng key)" and "\<forall>n\<in>set (storedNames eng rest). P n"
    using "2.prems" by (simp_all add: storedNames_def)
  then show ?case
    using "2.IH" by (simp add: upsert_without)
qed

lemma without_sel:
  "without P a =
     Component (cname a) (filter (\<lambda>p. \<not> P (pname p)) (cprops a)) (map (without P) (csubs a))"
  by (cases a) simp

lemma updateAll_without:
  "\<forall>n\<in>set (storedNames eng fieldMap). P n \<Longrightarrow>
   without P (updateAll eng a fieldMap) = without P a"
  by (simp add: without_sel [of _ "updateAll eng a fieldMap"] without_sel [of _ a]
      updateAll_without_props)

lemma updateAll_other_name:
  "n \<notin> set (storedNames eng fieldMap) \<Longrightarrow>
   firstPropertyIndex (updateAll eng a fieldMap) n = firstPropertyIndex a n \<and>
   (firstPropertyIndex a n = Some i \<longrightarrow> cprops (updateAll eng a fieldMap) ! i = cprops a ! i)"
proof (induction eng a fieldMap rule: updateAll.induct)
  case (1 eng a)
  show ?case by simp
next
  case (2 eng a key v rest)
  then have "toLowerCase eng key \<noteq> n" by (auto simp add: storedNames_def)
  then show ?case
    using 2 by (simp add: upsert_other_name storedNames_def)
qed

lemma upsert_keeps_position:
  assumes "firstPropertyIndex a n = Some i"
  shows "firstPropertyIndex (updatePropertyWithValue a m w) n = Some i \<and>
    pparams (cprops (updatePropertyWithValue a m w) ! i) = pparams (cprops a ! i)"
proof (cases "m = n")
  case True
  then show ?thesis
    using assms by (simp add: upsert_same_name_index upsert_same_name_replaced)
next
  case False
  then show ?thesis
    using assms by (simp add: upsert_other_name)
qed

lemma updateAll_keeps_position:
  "firstPropertyIndex a n = Some i \<Longrightarrow>
   firstPropertyIndex (updateAll eng a fieldMap) n = Some i \<and>
   pparams (cprops (updateAll eng a fieldMap) ! i) = pparams (cprops a ! i)"
proof (induction eng a fieldMap rule: updateAll.induct)
  case (1 eng a)
  then show ?case by simp
next
  case (2 eng a key v rest)
  then show ?case
    using upsert_keeps_position [OF "2.prems", of "toLowerCase eng key" v] by simp
qed

lemma updateAll_length: "length (cprops a) \<le> length (cprops (updateAll eng a fieldMap))"
proof (induction eng a fieldMap rule: updateAll.induct)
  case (1 eng a)
  show ?case by simp
next
  case (2 eng a key v rest)
  then show ?case
    using upsert_length [of a "toLowerCase eng key" v] by simp
qed

lemma updateAll_new_position:
  "firstPropertyIndex a n = None \<Longrightarrow> firstPropertyIndex (updateAll eng a fieldMap) n = Some j \<Longrightarrow>
   length (cprops a) \<le> j \<and> pparams (cprops (updateAll eng a fieldMap) ! j) = []"
proof (induction eng a fieldMap rule: updateAll.induct)
  case (1 eng a)
  then show ?case by simp
next
  case (2 eng a key v rest)
  let ?a = "updatePropertyWithValue a (toLowerCase eng key) v"
  show ?case
  proof (cases "toLowerCase eng key = n")
    case True
    then have pos: "firstPropertyIndex ?a n = Some (length (cprops a))"
      and new: "cprops ?a ! length (cprops a) = Property n [] v"
      using "2.prems"(1) by (simp_all add: upsert_same_name_index upsert_same_name_appended)
    show ?thesis
      using updateAll_keeps_position [OF pos, where eng = eng and fieldMap = rest] "2.prems"(2) new by simp
  next
    case False
    then have "firstPropertyIndex ?a n = None"
      using "2.prems"(1) by (simp add: upsert_other_name)
    then have "length (cprops ?a) \<le> j \<and> pparams (cprops (updateAll eng ?a rest) ! j) = []"
      using "2.IH" "2.prems"(2) by simp
    then show ?thesis
      using upsert_length [of a "toLowerCase eng key" v] by simp
  qed
qed

text \<open>The entry of a name that no later entry repeats decides the first property of that name.\<close>

lemma last_entry_decides:
  assumes "toLowerCase eng k \<notin> set (storedNames eng fm2)"
  shows "case firstPropertyIndex a (toLowerCase eng k) of
      Some i \<Rightarrow>
        firstPropertyIndex (updateAll eng a (fm1 @ (k, v) # fm2)) (toLowerCase eng k) = Some i \<and>
        cprops (updateAll eng a (fm1 @ (k, v) # fm2)) ! i =
          Property (toLowerCase eng k) (pparams (cprops a ! i)) v
    | None \<Rightarrow>
        \<exists>j\<ge>length (cprops a).
          firstPropertyIndex (updateAll eng a (fm1 @ (k, v) # fm2)) (toLowerCase eng k) = Some j \<and>
          cprops (updateAll eng a (fm1 @ (k, v) # fm2)) ! j = Property (toLowerCase eng k) [] v"
proof -
  let ?n = "toLowerCase eng k"
  let ?a1 = "updateAll eng a fm1"
  let ?a2 = "updatePropertyWithValue ?a1 ?n v"
  have all: "updateAll eng a (fm1 @ (k, v) # fm2) = updateAll eng ?a2 fm2"
    by (simp add: updateAll_append)
  note rest = updateAll_other_name [OF assms, of ?a2]
  show ?thesis
  proof (cases "firstPropertyIndex a ?n")
    case (Some i)
    have a1: "firstPropertyIndex ?a1 ?n = Some i" "pparams (cprops ?a1 ! i) = pparams (cprops a ! i)"
      using updateAll_keeps_position [OF Some, where eng = eng and fieldMap = fm1] by simp_all
    have "firstPropertyIndex ?a2 ?n = Some i"
      and "cprops ?a2 ! i = Property ?n (pparams (cprops a ! i)) v"
      using a1 by (simp_all add: upsert_same_name_index upsert_same_name_replaced)
    then show ?thesis
      using Some rest [of i] all by simp
  next
    case None
    show ?thesis
    proof (cases "firstPropertyIndex ?a1 ?n")
      case inner: None
      have "firstPropertyIndex ?a2 ?n = Some (length (cprops ?a1))"
        and "cprops ?a2 ! length (cprops ?a1) = Property ?n [] v"
        using inner by (simp_all add: upsert_same_name_index upsert_same_name_appended)
      then show ?thesis
        using None rest [of "length (cprops ?a1)"] all updateAll_length [of a eng fm1] by auto
    next
      case (Some j)
      have j: "length (cprops a) \<le> j" "pparams (cprops ?a1 ! j) = []"
        using updateAll_new_position [OF None Some] by simp_all
      have "firstPropertyIndex ?a2 ?n = Some j"
        and "cprops ?a2 ! j = Property ?n [] v"
        using Some j by (simp_all add: upsert_same_name_index upsert_same_name_replaced)
      then show ?thesis
        using None rest [of j] all j(1) by auto
    qed
  qed
qed

lemma findActualComponent_Sub:
  "findActualComponent c = Inr (Sub i) \<Longrightarrow> i < length (csubs c)"
  by (auto simp add: findActualComponent_def getFirstSubcomponent_def indexOfFirst_Some_iff
      split: if_splits option.splits)

lemma getFirstSubcomponent_mutate:
  assumes "i < length (csubs c)"
  shows "getFirstSubcomponent
      (Component (cname c) (cprops c) ((csubs c)[i := updateAll eng (csubs c ! i) fieldMap])) name =
    getFirstSubcomponent c name"
  using assms by (simp add: getFirstSubcomponent_def indexOfFirst_list_update)

lemma updatedComponent_target:
  assumes "findActualComponent c = Inr r" and "updatedComponent eng c fieldMap = Inr c'"
  shows "findActualComponent c' = Inr r" and "deref c' r = updateAll eng (deref c r) fieldMap"
proof -
  have c': "c' = mutate r (\<lambda>a. updateAll eng a fieldMap) c"
    using assms by (simp add: updatedComponent_def)
  show "findActualComponent c' = Inr r"
  proof (cases r)
    case Root
    then have "cname c \<noteq> ''vcalendar''"
      using assms(1) by (auto simp add: findActualComponent_def split: if_splits option.splits)
    then show ?thesis
      using c' Root by (simp add: findActualComponent_def)
  next
    case (Sub i)
    then have "i < length (csubs c)"
      using assms(1) findActualComponent_Sub by simp
    then have subs: "getFirstSubcomponent c' name = getFirstSubcomponent c name" for name
      using c' Sub by (simp add: getFirstSubcomponent_mutate)
    have name: "cname c' = cname c"
      using c' Sub by simp
    have "findActualComponent c' = findActualComponent c"
      by (simp only: findActualComponent_def subs name)
    then show ?thesis
      using assms(1) by simp
  qed
  show "deref c' r = updateAll eng (deref c r) fieldMap"
  proof (cases r)
    case Root
    then show ?thesis using c' by simp
  next
    case (Sub i)
    then have "i < length (csubs c)"
      using assms(1) findActualComponent_Sub by simp
    then show ?thesis using c' Sub by simp
  qed
qed

lemma updatedComponent_without:
  assumes "updatedComponent eng c fieldMap = Inr c'"
    and "\<forall>n\<in>set (storedNames eng fieldMap). P n"
  shows "without P c' = without P c"
proof -
  obtain r where r: "findActualComponent c = Inr r"
    and c': "c' = mutate r (\<lambda>a. updateAll eng a fieldMap) c"
    using assms(1) by (auto simp add: updatedComponent_def split: sum.splits)
  show ?thesis
  proof (cases r)
    case Root
    then show ?thesis using c' assms(2) by (simp add: updateAll_without)
  next
    case (Sub i)
    then have "i < length (csubs c)"
      using r findActualComponent_Sub by simp
    then have "(map (without P) (csubs c))
        [i := without P (updateAll eng (csubs c ! i) fieldMap)] =
      map (without P) (csubs c)"
      using assms(2) by (simp add: updateAll_without list_update_same_conv)
    then show ?thesis
      using c' Sub by (simp add: without_sel [of _ c] map_update)
  qed
qed

section \<open>The line-oriented engine reads back what it writes\<close>

subsection \<open>Characters and lines\<close>

lemma of_char_less_256: "(of_char c :: nat) < 256"
  by (cases c) simp

lemma lower_upper_char: "asciiToLowerCaseChar (asciiToUpperCaseChar c) = asciiToLowerCaseChar c"
proof (cases "97 \<le> (of_char c :: nat) \<and> (of_char c :: nat) \<le> 122")
  case True
  have small: "((of_char c :: nat) - 32) mod 256 = of_char c - 32"
    using of_char_less_256 [of c] by (intro mod_less) linarith
  have restored: "char_of ((of_char c :: nat) - 32 + 32) = c"
    using True by simp
  have upper: "65 \<le> (of_char c :: nat) - 32" "(of_char c :: nat) - 32 \<le> 90"
    and lower: "\<not> (of_char c :: nat) \<le> 90"
    using True by auto
  show ?thesis
    using True restored upper lower
    by (simp add: asciiToLowerCaseChar_def asciiToUpperCaseChar_def Let_def small)
next
  case False
  then have "asciiToUpperCaseChar c = c"
    by (auto simp add: asciiToUpperCaseChar_def Let_def)
  then show ?thesis by simp
qed


lemma plain_fixed: "plain c \<Longrightarrow> asciiToUpperCaseChar c = c \<and> asciiToLowerCaseChar c = c"
  by (simp add: plain_def asciiToUpperCaseChar_def asciiToLowerCaseChar_def Let_def)

lemma plain_case: "plain (asciiToUpperCaseChar c) = plain c" "plain (asciiToLowerCaseChar c) = plain c"
  by (auto simp add: plain_def asciiToUpperCaseChar_def asciiToLowerCaseChar_def Let_def)

lemma plain_eq:
  assumes "plain d"
  shows "asciiToUpperCaseChar c = d \<longleftrightarrow> c = d" and "asciiToLowerCaseChar c = d \<longleftrightarrow> c = d"
  using assms plain_fixed plain_case by metis+

lemma plain_mem:
  assumes "plain d"
  shows "d \<in> set (asciiToUpperCase s) \<longleftrightarrow> d \<in> set s"
    and "d \<in> set (asciiToLowerCase s) \<longleftrightarrow> d \<in> set s"
proof -
  have "(d = asciiToUpperCaseChar x) = (x = d)" and "(d = asciiToLowerCaseChar x) = (x = d)" for x
    using plain_eq [OF assms] by metis+
  then show "d \<in> set (asciiToUpperCase s) \<longleftrightarrow> d \<in> set s"
    and "d \<in> set (asciiToLowerCase s) \<longleftrightarrow> d \<in> set s"
    by (simp_all add: asciiToUpperCase_def asciiToLowerCase_def image_iff)
qed

lemma plain_delims [simp]:
  "plain (CHR '':'')" "plain (CHR '';'')" "plain (CHR ''='')" "plain (CHR 0x0A)" "plain (CHR 0x0D)"
  by (simp_all add: plain_def)

lemma lower_upper: "asciiToLowerCase (asciiToUpperCase s) = asciiToLowerCase s"
  by (simp add: asciiToLowerCase_def asciiToUpperCase_def lower_upper_char)


lemma splitOn_not_Nil [simp]: "splitOn d s \<noteq> []"
  by (induction s) (auto split: list.splits)

lemma splitOn_append: "d \<notin> set l \<Longrightarrow> splitOn d (l @ d # rest) = l # splitOn d rest"
  by (induction l) auto

lemma splitOn_single: "d \<notin> set l \<Longrightarrow> splitOn d l = [l]"
  by (induction l) auto



lemma splitOn_segments:
  "d \<notin> set s0 \<Longrightarrow> \<forall>s\<in>set ss. d \<notin> set s \<Longrightarrow>
   splitOn d (s0 @ concat (map (\<lambda>s. d # s) ss)) = s0 # ss"
proof (induction ss arbitrary: s0)
  case Nil
  then show ?case by (simp add: splitOn_single)
next
  case (Cons s ss)
  then show ?case by (simp add: splitOn_append)
qed

lemma chomp_CR: "chomp (l @ [CHR 0x0D]) = l"
  by (simp add: chomp_def)


lemma contentLines_concat:
  "\<forall>l\<in>set ls. CHR 0x0A \<notin> set l \<Longrightarrow>
   contentLines (concat (map (\<lambda>l. l @ [CHR 0x0D, CHR 0x0A]) ls)) = ls @ [[]]"
proof (induction ls)
  case Nil
  then show ?case by (simp add: contentLines_def chomp_def)
next
  case (Cons l ls)
  have "splitOn (CHR 0x0A) ((l @ [CHR 0x0D]) @ CHR 0x0A # rest) =
      (l @ [CHR 0x0D]) # splitOn (CHR 0x0A) rest" for rest
    using Cons.prems by (intro splitOn_append) simp
  then show ?case
    using Cons by (simp add: contentLines_def chomp_CR)
qed


lemma takeWhile_until: "d \<notin> set xs \<Longrightarrow> takeWhile (\<lambda>c. c \<noteq> d) (xs @ d # ys) = xs"
  by (induction xs) auto

lemma dropWhile_until: "d \<notin> set xs \<Longrightarrow> dropWhile (\<lambda>c. c \<noteq> d) (xs @ d # ys) = d # ys"
  by (induction xs) auto

lemmas ascii_eval = asciiToLowerCase_def asciiToLowerCaseChar_def asciiToUpperCase_def
  asciiToUpperCaseChar_def char_of_def bit_Suc_0_iff Let_def

subsection \<open>Reading back a rendered line\<close>

lemma classify_render_Begin: "wfName n \<Longrightarrow> classify (render (Begin n)) = Begin n"
  by (simp add: classify_def lower_upper wfName_def) (simp add: ascii_eval)

lemma classify_render_End: "wfName n \<Longrightarrow> classify (render (End n)) = End n"
  by (simp add: classify_def lower_upper wfName_def) (simp add: ascii_eval)

lemma parseParams_render:
  "\<forall>p\<in>set ps. wfParam p \<Longrightarrow> parseParams (map renderParam ps) = Some ps"
proof (induction ps)
  case Nil
  show ?case by simp
next
  case (Cons p ps)
  obtain k x where p: "p = (k, x)" by (cases p)
  have k: "CHR ''='' \<notin> set (asciiToUpperCase k)" "asciiToLowerCase k = k"
    using Cons.prems p by (simp_all add: plain_mem wfToken_def wfName_def)
  then show ?case
    using Cons p by (simp add: takeWhile_until dropWhile_until lower_upper)
qed

lemma classify_render_Prop:
  assumes "wfProperty p"
  shows "classify (render (Prop p)) = Prop p"
proof -
  obtain n ps v where p: "p = Property n ps v" by (cases p)
  let ?hdr = "asciiToUpperCase n @ concat (map (\<lambda>s. CHR '';'' # s) (map renderParam ps))"
  have n: "asciiToLowerCase n = n" "CHR '':'' \<notin> set (asciiToUpperCase n)"
    "CHR '';'' \<notin> set (asciiToUpperCase n)"
    using assms p by (simp_all add: plain_mem wfToken_def wfName_def)
  have params: "\<forall>q\<in>set ps. wfParam q"
    using assms p by simp
  have segs: "\<forall>s\<in>set (map renderParam ps). CHR '';'' \<notin> set s \<and> CHR '':'' \<notin> set s"
    using params by (auto simp add: plain_mem wfToken_def)
  have line: "render (Prop p) = ?hdr @ CHR '':'' # v"
    using p by (simp add: comp_def)
  have colon: "CHR '':'' \<notin> set ?hdr"
    using n(2) segs by auto
  have hdr: "takeWhile (\<lambda>c. c \<noteq> CHR '':'') (?hdr @ CHR '':'' # v) = ?hdr"
    and rest: "dropWhile (\<lambda>c. c \<noteq> CHR '':'') (?hdr @ CHR '':'' # v) = CHR '':'' # v"
    using colon by (rule takeWhile_until, rule dropWhile_until)
  have split: "splitOn (CHR '';'') ?hdr = asciiToUpperCase n # map renderParam ps"
    using n(3) segs by (intro splitOn_segments) simp_all
  have keyword: "\<not> (map renderParam ps = [] \<and> asciiToLowerCase (asciiToUpperCase n) = ''begin'')"
    "\<not> (map renderParam ps = [] \<and> asciiToLowerCase (asciiToUpperCase n) = ''end'')"
    using assms p n(1) by (auto simp add: lower_upper)
  show ?thesis
    unfolding line classify_def hdr rest split
    using keyword parseParams_render [OF params] p n(1)
    by (simp add: lower_upper)
qed

lemma render_free_Begin: "wfName n \<Longrightarrow> CHR 0x0A \<notin> set (render (Begin n))"
  and render_free_End: "wfName n \<Longrightarrow> CHR 0x0A \<notin> set (render (End n))"
  by (simp_all add: plain_mem wfName_def)

lemma render_free_Prop: "wfProperty p \<Longrightarrow> CHR 0x0A \<notin> set (render (Prop p))"
  by (cases p) (auto simp add: plain_mem wfToken_def wfName_def)

subsection \<open>Running the items of a tree\<close>

lemma run_append: "run (xs @ ys) st = (case run xs st of Inl e \<Rightarrow> Inl e | Inr st' \<Rightarrow> run ys st')"
  by (induction xs arbitrary: st) (auto split: sum.splits)

lemma run_props:
  "run (map Prop ps @ rest) (Frame n ps0 cs0 # fs, roots) =
   run rest (Frame n (ps0 @ ps) cs0 # fs, roots)"
  by (induction ps arbitrary: ps0) simp_all

lemma run_subs:
  assumes "\<And>c rest st. c \<in> set cs \<Longrightarrow> run (items c @ rest) st = run rest (attach c st)"
  shows "run (concat (map items cs) @ rest) (Frame n ps0 cs0 # fs, roots) =
    run rest (Frame n ps0 (cs0 @ cs) # fs, roots)"
  using assms
proof (induction cs arbitrary: cs0)
  case Nil
  show ?case by simp
next
  case (Cons c cs)
  have "run (items c @ concat (map items cs) @ rest) (Frame n ps0 cs0 # fs, roots) =
      run (concat (map items cs) @ rest) (Frame n ps0 (cs0 @ [c]) # fs, roots)"
    using Cons.prems [of c] by simp
  then show ?case
    using Cons.IH [of "cs0 @ [c]"] Cons.prems by simp
qed

lemma run_items: "run (items c @ rest) st = run rest (attach c st)"
proof (induction c arbitrary: rest st)
  case (Component n ps cs)
  obtain fs roots where st: "st = (fs, roots)" by (cases st)
  have "run (items (Component n ps cs) @ rest) (fs, roots) =
      run (map Prop ps @ concat (map items cs) @ End n # rest) (Frame n [] [] # fs, roots)"
    by simp
  also have "\<dots> = run (concat (map items cs) @ End n # rest) (Frame n ps [] # fs, roots)"
    using run_props [of ps _ n "[]"] by simp
  also have "\<dots> = run (End n # rest) (Frame n ps cs # fs, roots)"
    using run_subs [of cs _ n ps "[]"] Component.IH by simp
  also have "\<dots> = run rest (attach (Component n ps cs) (fs, roots))"
    by simp
  finally show ?case using st by simp
qed

subsection \<open>Reading back a printed tree\<close>

lemma items_wf:
  "wfComponent c \<Longrightarrow> i \<in> set (items c) \<Longrightarrow>
   classify (render i) = i \<and> CHR 0x0A \<notin> set (render i)"
proof (induction c arbitrary: i)
  case (Component n ps cs)
  then show ?case
    by (auto simp add: classify_render_Begin classify_render_End classify_render_Prop
        render_free_Begin render_free_End render_free_Prop simp del: render.simps)
qed

lemma classify_Nil: "classify [] = Blank"
  by (simp add: classify_def)

lemma parseText_printText:
  assumes "wfComponent c"
  shows "parseText (printText c) = Inr c"
proof -
  have print: "printText c = concat (map (\<lambda>l. l @ [CHR 0x0D, CHR 0x0A]) (map render (items c)))"
    by (simp add: printText_def comp_def)
  have "contentLines (printText c) = map render (items c) @ [[]]"
    unfolding print using items_wf [OF assms] by (intro contentLines_concat) auto
  moreover have "map classify (map render (items c)) = items c"
    using items_wf [OF assms] by (simp add: map_idI)
  ultimately have "map classify (contentLines (printText c)) = items c @ [Blank]"
    by (simp add: classify_Nil)
  then show ?thesis
    by (simp add: parseText_def run_items)
qed

subsection \<open>What the parser builds\<close>








lemma printText_not_Nil: "printText c \<noteq> []"
  by (cases c) (simp add: printText_def)

lemma lineEngine_reads_back:
  "wfComponent c \<Longrightarrow> parse lineEngine (JSString (toString lineEngine c)) = Inr c"
  by (simp add: lineEngine_def parseText_printText)

lemma lineEngine_toString: "toString lineEngine = printText"
  by (simp add: lineEngine_def)

lemma lineEngine_toLowerCase: "toLowerCase lineEngine = asciiToLowerCase"
  by (simp add: lineEngine_def)

lemma fixture_trees_wf:
  "wfComponent veventTree" "wfComponent vcardTree" "wfComponent siblingResult"
  by code_simp+

section \<open>Selection of the update target\<close>

text \<open>
  C3. When the root of the parsed record is a \<^verbatim>\<open>vcalendar\<close>, the update target is the first
  \<^verbatim>\<open>vevent\<close> child if there is one, otherwise the first \<^verbatim>\<open>vtodo\<close> child, otherwise the first
  \<^verbatim>\<open>vjournal\<close> child, and the target so selected is the node that the field updates are
  applied to. When the calendar has no child of these three names the call fails with
  the "No VEVENT, VTODO, or VJOURNAL found in VCALENDAR" error and returns no text.
\<close>

theorem target_priority:
  assumes "icalStringOf calendarObject = JSString s" and "s \<noteq> []"
    and "parse eng (JSString s) = Inr c" and "cname c = ''vcalendar''"
  shows "(isFirstNamed ''vevent'' (csubs c) i \<longrightarrow> findActualComponent c = Inr (Sub i)) \<and>
    ((\<forall>x\<in>set (csubs c). cname x \<noteq> ''vevent'') \<and> isFirstNamed ''vtodo'' (csubs c) i \<longrightarrow>
       findActualComponent c = Inr (Sub i)) \<and>
    ((\<forall>x\<in>set (csubs c). cname x \<noteq> ''vevent'' \<and> cname x \<noteq> ''vtodo'') \<and>
       isFirstNamed ''vjournal'' (csubs c) i \<longrightarrow>
       findActualComponent c = Inr (Sub i)) \<and>
    ((\<forall>x\<in>set (csubs c).
        cname x \<noteq> ''vevent'' \<and> cname x \<noteq> ''vtodo'' \<and> cname x \<noteq> ''vjournal'') \<longrightarrow>
       updateFields eng calendarObject fieldMap = Inl (Error noComponentMessage)) \<and>
    (findActualComponent c = Inr (Sub i) \<longrightarrow>
       updateFields eng calendarObject fieldMap =
         Inr (toString eng
           (Component (cname c) (cprops c)
              ((csubs c)[i := updateAll eng (csubs c ! i) fieldMap]))))"
proof (intro conjI impI)
  assume "isFirstNamed ''vevent'' (csubs c) i"
  then show "findActualComponent c = Inr (Sub i)"
    using assms(4) by (simp add: findActualComponent_def getFirstSubcomponent_first)
next
  assume "(\<forall>x\<in>set (csubs c). cname x \<noteq> ''vevent'') \<and> isFirstNamed ''vtodo'' (csubs c) i"
  then show "findActualComponent c = Inr (Sub i)"
    using assms(4)
    by (auto simp add: findActualComponent_def getFirstSubcomponent_first getFirstSubcomponent_none)
next
  assume "(\<forall>x\<in>set (csubs c). cname x \<noteq> ''vevent'' \<and> cname x \<noteq> ''vtodo'') \<and>
    isFirstNamed ''vjournal'' (csubs c) i"
  then show "findActualComponent c = Inr (Sub i)"
    using assms(4)
    by (auto simp add: findActualComponent_def getFirstSubcomponent_first getFirstSubcomponent_none)
next
  assume "\<forall>x\<in>set (csubs c).
    cname x \<noteq> ''vevent'' \<and> cname x \<noteq> ''vtodo'' \<and> cname x \<noteq> ''vjournal''"
  then have "findActualComponent c = Inl (Error noComponentMessage)"
    using assms(4) by (simp add: findActualComponent_def getFirstSubcomponent_none)
  then show "updateFields eng calendarObject fieldMap = Inl (Error noComponentMessage)"
    using assms(1-3) by (simp add: updateFields_def updatedComponent_def)
next
  assume "findActualComponent c = Inr (Sub i)"
  then show "updateFields eng calendarObject fieldMap =
    Inr (toString eng
      (Component (cname c) (cprops c) ((csubs c)[i := updateAll eng (csubs c ! i) fieldMap])))"
    using assms(1-3) by (simp add: updateFields_def updatedComponent_def)
qed

theorem target_priority_witness:
  "findActualComponent veventTree = Inr (Sub 2) \<and>
   updateFields fixtureEngine (IcalString (fixtureToString veventTree)) [(''SUMMARY'', ''Updated'')] =
     Inr (fixtureToString
       (Component ''vcalendar'' [Property ''version'' [] ''2.0'']
         [Component ''vtimezone'' [Property ''tzid'' [] ''UTC''] [],
          Component ''vtodo'' [Property ''summary'' [] ''Task''] [],
          Component ''vevent''
            [Property ''uid'' [] ''1'', Property ''summary'' [(''language'', ''en'')] ''Updated'',
             Property ''location'' [] ''Office'']
            [],
          Component ''vevent'' [Property ''summary'' [] ''Second''] []])) \<and>
   updateFields fixtureEngine (DavObject (JSString (fixtureToString freebusyTree)) [])
       [(''SUMMARY'', ''Updated'')] =
     Inl (Error ''No VEVENT, VTODO, or VJOURNAL found in VCALENDAR'')"
proof -
  have a: "icalStringOf (IcalString (fixtureToString veventTree)) = JSString (fixtureToString veventTree)"
    and b: "fixtureToString veventTree \<noteq> []"
    and c: "parse fixtureEngine (JSString (fixtureToString veventTree)) = Inr veventTree"
    and d: "cname veventTree = ''vcalendar''"
    and e: "isFirstNamed ''vevent'' (csubs veventTree) 2"
    by (simp_all add: fixture_defs numeral_2_eq_2)
  have a': "icalStringOf (DavObject (JSString (fixtureToString freebusyTree)) []) =
      JSString (fixtureToString freebusyTree)"
    and b': "fixtureToString freebusyTree \<noteq> []"
    and c': "parse fixtureEngine (JSString (fixtureToString freebusyTree)) = Inr freebusyTree"
    and d': "cname freebusyTree = ''vcalendar''"
    and e': "\<forall>x\<in>set (csubs freebusyTree).
        cname x \<noteq> ''vevent'' \<and> cname x \<noteq> ''vtodo'' \<and> cname x \<noteq> ''vjournal''"
    by (simp_all add: fixture_defs)
  show ?thesis
    using target_priority [OF a b c d, of 2 "[(''SUMMARY'', ''Updated'')]"] e
      target_priority [OF a' b' c' d', of 0 "[(''SUMMARY'', ''Updated'')]"] e'
    by (simp add: fixture_defs numeral_2_eq_2)
qed

text \<open>
  C7. When the root of the parsed record is not a \<^verbatim>\<open>vcalendar\<close>, whatever its name is, the
  root itself is the update target: the call does not fail, the field updates are
  applied to the root, and the root is serialised.
\<close>

theorem standalone_root_is_target:
  assumes "icalStringOf calendarObject = JSString s" and "s \<noteq> []"
    and "parse eng (JSString s) = Inr c" and "cname c \<noteq> ''vcalendar''"
  shows "findActualComponent c = Inr Root \<and>
    updateFields eng calendarObject fieldMap = Inr (toString eng (updateAll eng c fieldMap))"
  using assms by (simp add: updateFields_def updatedComponent_def findActualComponent_def)

theorem standalone_root_is_target_witness:
  "findActualComponent vcardTree = Inr Root \<and>
   updateFields fixtureEngine (IcalString (fixtureToString vcardTree)) [(''FN'', ''Jane Doe'')] =
     Inr (fixtureToString
       (Component ''vcard''
         [Property ''fn'' [] ''Jane Doe'', Property ''email'' [] ''john@example.com''] []))"
proof -
  have a: "icalStringOf (IcalString (fixtureToString vcardTree)) = JSString (fixtureToString vcardTree)"
    and b: "fixtureToString vcardTree \<noteq> []"
    and c: "parse fixtureEngine (JSString (fixtureToString vcardTree)) = Inr vcardTree"
    and d: "cname vcardTree \<noteq> ''vcalendar''"
    by (simp_all add: fixture_defs)
  show ?thesis
    using standalone_root_is_target [OF a b c d, of "[(''FN'', ''Jane Doe'')]"]
    by (simp add: fixture_defs)
qed

section \<open>Errors\<close>



text \<open>
  C5. When the text is not empty and the engine rejects it with a message, the call fails
  with the error "Failed to parse iCal data: " followed by the engine's message, for the
  raw and the wrapper shape of the input alike, and that error is neither the "Invalid
  input" error nor the error for a calendar without an updatable component.
\<close>

theorem parse_failure_reported:
  assumes "icalStringOf calendarObject = JSString s" and "s \<noteq> []" and "parse eng (JSString s) = Inl msg"
  shows "updateFields eng calendarObject fieldMap = Inl (Error (parseFailurePrefix @ msg)) \<and>
    parseFailurePrefix @ msg \<noteq> invalidInputMessage \<and>
    parseFailurePrefix @ msg \<noteq> noComponentMessage"
  using assms messages_distinct by (simp add: updateFields_def)

theorem parse_failure_reported_witness:
  "updateFields fixtureEngine (IcalString ''INVALID ICAL DATA'') [(''SUMMARY'', ''Test'')] =
     Inl (Error ''Failed to parse iCal data: invalid ical body. component began but did not end'') \<and>
   updateFields fixtureEngine (DavObject (JSString ''INVALID ICAL DATA'') [(''etag'', JSString ''abc123'')]) [] =
     Inl (Error ''Failed to parse iCal data: invalid ical body. component began but did not end'')"
proof -
  have a: "icalStringOf (IcalString ''INVALID ICAL DATA'') = JSString ''INVALID ICAL DATA''"
    and a': "icalStringOf (DavObject (JSString ''INVALID ICAL DATA'') [(''etag'', JSString ''abc123'')]) =
      JSString ''INVALID ICAL DATA''"
    and b: "''INVALID ICAL DATA'' \<noteq> []"
    and c: "parse fixtureEngine (JSString ''INVALID ICAL DATA'') =
      Inl ''invalid ical body. component began but did not end''"
    by (simp_all add: fixture_defs)
  show ?thesis
    using parse_failure_reported [OF a b c, of "[(''SUMMARY'', ''Test'')]"]
      parse_failure_reported [OF a' b c, of "[]"]
    by (simp add: parseFailurePrefix_def)
qed

section \<open>The wrapper object\<close>

text \<open>
  C9. Two wrapper objects with the same \<^verbatim>\<open>data\<close> give the same result whatever their other
  fields are, and a wrapper gives the result of its \<^verbatim>\<open>data\<close> text passed as a raw record.
  The result is a text or an error; no field of the wrapper is part of it.
\<close>

theorem wrapper_fields_ignored:
  "updateFields eng (DavObject d other) fieldMap = updateFields eng (DavObject d other') fieldMap \<and>
   updateFields eng (DavObject (JSString s) other) fieldMap = updateFields eng (IcalString s) fieldMap"
  by (simp add: updateFields_def icalStringOf_def)

section \<open>The empty field map\<close>



section \<open>Preservation\<close>

text \<open>
  C1. For a record that parses and has an update target, the returned text is the
  serialisation of the whole updated tree, and every property of the record whose name
  is not a key of the field map is in that tree with the same value, parameters and
  relative order, at the same place: the trees are equal once the properties whose name
  is a lowercased key are left out, and, lowercasing being without effect on a lowercased
  key, equal once the properties whose name is a key up to the case of letters are left
  out. When the target is a child of the calendar, the properties of the calendar itself
  and every other child are in the tree exactly as they were parsed, whatever the names
  of their properties. When the engine reads its serialisation of the updated tree back
  as that tree, the returned text is a record with that tree.
\<close>

theorem other_properties_preserved:
  assumes "icalStringOf calendarObject = JSString s" and "s \<noteq> []"
    and "parse eng (JSString s) = Inr c" and "updatedComponent eng c fieldMap = Inr c'"
  shows "updateFields eng calendarObject fieldMap = Inr (toString eng c') \<and>
    without (\<lambda>n. n \<in> set (storedNames eng fieldMap)) c' =
      without (\<lambda>n. n \<in> set (storedNames eng fieldMap)) c \<and>
    ((\<forall>n\<in>set (storedNames eng fieldMap). toLowerCase eng n = n) \<longrightarrow>
       without (isKey eng fieldMap) c' = without (isKey eng fieldMap) c) \<and>
    (\<forall>i. findActualComponent c = Inr (Sub i) \<longrightarrow>
       cname c' = cname c \<and> cprops c' = cprops c \<and> length (csubs c') = length (csubs c) \<and>
       (\<forall>j<length (csubs c). j \<noteq> i \<longrightarrow> csubs c' ! j = csubs c ! j)) \<and>
    (parse eng (JSString (toString eng c')) = Inr c' \<longrightarrow>
       (\<exists>out. updateFields eng calendarObject fieldMap = Inr out \<and>
          parse eng (JSString out) = Inr c'))"
proof -
  have out: "updateFields eng calendarObject fieldMap = Inr (toString eng c')"
    using assms by (simp add: updateFields_def)
  have exact: "without (\<lambda>n. n \<in> set (storedNames eng fieldMap)) c' =
      without (\<lambda>n. n \<in> set (storedNames eng fieldMap)) c"
    using assms(4) by (rule updatedComponent_without) simp
  have upto: "without (isKey eng fieldMap) c' = without (isKey eng fieldMap) c"
    if "\<forall>n\<in>set (storedNames eng fieldMap). toLowerCase eng n = n"
    using assms(4) by (rule updatedComponent_without) (simp add: isKey_def that)
  have sibling: "cname c' = cname c \<and> cprops c' = cprops c \<and>
      length (csubs c') = length (csubs c) \<and>
      (\<forall>j<length (csubs c). j \<noteq> i \<longrightarrow> csubs c' ! j = csubs c ! j)"
    if "findActualComponent c = Inr (Sub i)" for i
    using assms(4) that by (auto simp add: updatedComponent_def)
  show ?thesis
    using out exact upto sibling by blast
qed

theorem other_properties_preserved_witness:
  "parse lineEngine (JSString (printText veventTree)) = Inr veventTree \<and>
   updateFields lineEngine (IcalString (printText veventTree)) siblingFields =
     Inr (printText siblingResult) \<and>
   storedNames lineEngine siblingFields = [''summary'', ''x-custom-field''] \<and>
   without (isKey lineEngine siblingFields) siblingResult =
     without (isKey lineEngine siblingFields) veventTree \<and>
   csubs siblingResult ! 1 = Component ''vtodo'' [Property ''summary'' [] ''Task''] [] \<and>
   csubs siblingResult ! 3 = csubs veventTree ! 3 \<and>
   parse lineEngine (JSString (printText siblingResult)) = Inr siblingResult"
proof -
  have a: "icalStringOf (IcalString (printText veventTree)) = JSString (printText veventTree)"
    by (simp add: icalStringOf_def)
  have b: "printText veventTree \<noteq> []"
    by (rule printText_not_Nil)
  have c: "parse lineEngine (JSString (printText veventTree)) = Inr veventTree"
    using lineEngine_reads_back [OF fixture_trees_wf(1)] by (simp add: lineEngine_toString)
  have d: "updatedComponent lineEngine veventTree siblingFields = Inr siblingResult"
    by code_simp
  have e: "findActualComponent veventTree = Inr (Sub 2)"
    by code_simp
  have f: "storedNames lineEngine siblingFields = [''summary'', ''x-custom-field'']"
    by code_simp
  have g: "\<forall>n\<in>set (storedNames lineEngine siblingFields). toLowerCase lineEngine n = n"
    by code_simp
  have h: "parse lineEngine (JSString (toString lineEngine siblingResult)) = Inr siblingResult"
    by (rule lineEngine_reads_back [OF fixture_trees_wf(3)])
  have i: "toString lineEngine = printText"
    by (rule lineEngine_toString)
  have j: "csubs veventTree ! 1 = Component ''vtodo'' [Property ''summary'' [] ''Task''] []"
    and k: "(1::nat) < length (csubs veventTree)" "(3::nat) < length (csubs veventTree)"
    by (simp_all add: veventTree_def)
  note inst = other_properties_preserved [OF a b c d]
  have "updateFields lineEngine (IcalString (printText veventTree)) siblingFields =
      Inr (toString lineEngine siblingResult)"
    and "without (isKey lineEngine siblingFields) siblingResult =
      without (isKey lineEngine siblingFields) veventTree"
    and "csubs siblingResult ! 1 = csubs veventTree ! 1"
    and "csubs siblingResult ! 3 = csubs veventTree ! 3"
    using inst e g k by auto
  then show ?thesis
    using c f h i j by simp
qed

section \<open>Upsert\<close>

text \<open>
  C2, as stated, fails: with the keys \<^verbatim>\<open>FN\<close> and \<^verbatim>\<open>fn\<close> in one field map, the contact ends
  with the value of \<^verbatim>\<open>fn\<close>, and no property holds the value given for \<^verbatim>\<open>FN\<close>.
\<close>

theorem upsert_every_key_counterexample:
  "updatedComponent lineEngine vcardTree caseVariantFields =
     Inr (Component ''vcard''
       [Property ''fn'' [] ''Janet Doe'', Property ''email'' [] ''john@example.com''] []) \<and>
   updateFields lineEngine (IcalString (printText vcardTree)) caseVariantFields =
     Inr (printText (Component ''vcard''
       [Property ''fn'' [] ''Janet Doe'', Property ''email'' [] ''john@example.com''] [])) \<and>
   map_of caseVariantFields ''FN'' = Some ''Jane Doe'' \<and>
   ''Jane Doe'' \<notin>
     set (map pvalue (cprops (updateAll lineEngine vcardTree caseVariantFields)))"
proof -
  have a: "parse lineEngine (JSString (printText vcardTree)) = Inr vcardTree"
    using lineEngine_reads_back [OF fixture_trees_wf(2)] by (simp add: lineEngine_toString)
  have b: "updatedComponent lineEngine vcardTree caseVariantFields =
      Inr (Component ''vcard''
        [Property ''fn'' [] ''Janet Doe'', Property ''email'' [] ''john@example.com''] [])"
    and c: "map_of caseVariantFields ''FN'' = Some ''Jane Doe''"
    and d: "''Jane Doe'' \<notin>
      set (map pvalue (cprops (updateAll lineEngine vcardTree caseVariantFields)))"
    by code_simp+
  have "updateFields lineEngine (IcalString (printText vcardTree)) caseVariantFields =
      Inr (printText (Component ''vcard''
        [Property ''fn'' [] ''Janet Doe'', Property ''email'' [] ''john@example.com''] []))"
    using a b printText_not_Nil [of vcardTree]
    by (simp add: updateFields_def icalStringOf_def lineEngine_toString)
  then show ?thesis
    using b c d by simp
qed

text \<open>
  C2, amended. For a record that parses and has an update target, and for every key of
  the field map whose lowercased form is not the lowercased form of a key enumerated
  after it, the update target of the updated tree (the same node as before) has a
  property of the lowercased name whose value is exactly the value given for the key,
  and it is the first property of that name. If the target had a property of that name,
  it is replaced in place: same position, same parameters, the new value. Otherwise the
  property is new, after all the properties the target had, with no parameters. Names
  and values are arbitrary strings. When the engine reads its serialisation of the
  updated tree back as that tree, the returned text is a record with that tree.
\<close>

theorem upsert_last_key_value:
  assumes "icalStringOf calendarObject = JSString s" and "s \<noteq> []"
    and "parse eng (JSString s) = Inr c" and "findActualComponent c = Inr r"
    and "updatedComponent eng c fieldMap = Inr c'"
    and "fieldMap = fm1 @ (k, v) # fm2"
    and "toLowerCase eng k \<notin> set (storedNames eng fm2)"
  shows "updateFields eng calendarObject fieldMap = Inr (toString eng c') \<and>
    findActualComponent c' = Inr r \<and>
    (case firstPropertyIndex (deref c r) (toLowerCase eng k) of
       Some i \<Rightarrow>
         firstPropertyIndex (deref c' r) (toLowerCase eng k) = Some i \<and>
         cprops (deref c' r) ! i =
           Property (toLowerCase eng k) (pparams (cprops (deref c r) ! i)) v
     | None \<Rightarrow>
         \<exists>j\<ge>length (cprops (deref c r)).
           firstPropertyIndex (deref c' r) (toLowerCase eng k) = Some j \<and>
           cprops (deref c' r) ! j = Property (toLowerCase eng k) [] v) \<and>
    (parse eng (JSString (toString eng c')) = Inr c' \<longrightarrow>
       (\<exists>out. updateFields eng calendarObject fieldMap = Inr out \<and>
          parse eng (JSString out) = Inr c'))"
proof -
  have out: "updateFields eng calendarObject fieldMap = Inr (toString eng c')"
    using assms(1-3,5) by (simp add: updateFields_def)
  have same: "findActualComponent c' = Inr r"
    and target: "deref c' r = updateAll eng (deref c r) (fm1 @ (k, v) # fm2)"
    using updatedComponent_target [OF assms(4,5)] assms(6) by simp_all
  have link: "parse eng (JSString (toString eng c')) = Inr c' \<longrightarrow>
      (\<exists>out. updateFields eng calendarObject fieldMap = Inr out \<and>
         parse eng (JSString out) = Inr c')"
    using out by simp
  show ?thesis
    unfolding target
    by (intro conjI out same last_entry_decides [OF assms(7)] link)
qed

theorem upsert_last_key_value_witness:
  "updateFields lineEngine (IcalString (printText veventTree)) siblingFields =
     Inr (printText siblingResult) \<and>
   findActualComponent siblingResult = Inr (Sub 2) \<and>
   toLowerCase lineEngine ''SUMMARY'' = ''summary'' \<and>
   firstPropertyIndex (deref veventTree (Sub 2)) ''summary'' = Some 1 \<and>
   firstPropertyIndex (deref siblingResult (Sub 2)) ''summary'' = Some 1 \<and>
   cprops (deref siblingResult (Sub 2)) ! 1 =
     Property ''summary'' [(''language'', ''en'')] ''Updated'' \<and>
   parse lineEngine (JSString (printText siblingResult)) = Inr siblingResult"
proof -
  have a: "icalStringOf (IcalString (printText veventTree)) = JSString (printText veventTree)"
    by (simp add: icalStringOf_def)
  have b: "printText veventTree \<noteq> []"
    by (rule printText_not_Nil)
  have c: "parse lineEngine (JSString (printText veventTree)) = Inr veventTree"
    using lineEngine_reads_back [OF fixture_trees_wf(1)] by (simp add: lineEngine_toString)
  have d: "findActualComponent veventTree = Inr (Sub 2)"
    by code_simp
  have e: "updatedComponent lineEngine veventTree siblingFields = Inr siblingResult"
    by code_simp
  have f: "siblingFields = [] @ (''SUMMARY'', ''Updated'') # [(''X-CUSTOM-FIELD'', ''value123'')]"
    by (simp add: siblingFields_def)
  have g: "toLowerCase lineEngine ''SUMMARY'' \<notin>
      set (storedNames lineEngine [(''X-CUSTOM-FIELD'', ''value123'')])"
    by code_simp
  have h: "firstPropertyIndex (deref veventTree (Sub 2)) (toLowerCase lineEngine ''SUMMARY'') =
      Some 1"
    by code_simp
  have i: "toLowerCase lineEngine ''SUMMARY'' = ''summary''"
    by code_simp
  have j: "pparams (cprops (deref veventTree (Sub 2)) ! 1) = [(''language'', ''en'')]"
    by code_simp
  have k: "parse lineEngine (JSString (toString lineEngine siblingResult)) = Inr siblingResult"
    by (rule lineEngine_reads_back [OF fixture_trees_wf(3)])
  have l: "toString lineEngine = printText"
    by (rule lineEngine_toString)
  show ?thesis
    using upsert_last_key_value [OF a b c d e f g] h i j k l
    by simp
qed

text \<open>
  C10. Keys are lowercased before the upsert. When two keys of the field map have the
  same lowercased form, and no key after the second has it, the upsert of the first and
  the loop as a whole leave the first property of the lowercased name at the same
  position of the update target, holding the first value after the first upsert and the
  second value in the end. When the engine reads its serialisation of the updated tree
  back as that tree, the returned text is a record with that tree.
\<close>

theorem case_variant_keys_last_wins:
  assumes "icalStringOf calendarObject = JSString s" and "s \<noteq> []"
    and "parse eng (JSString s) = Inr c" and "findActualComponent c = Inr r"
    and "updatedComponent eng c fieldMap = Inr c'"
    and "fieldMap = fm1 @ (k1, v1) # fm2 @ (k2, v2) # fm3"
    and "toLowerCase eng k1 = toLowerCase eng k2"
    and "toLowerCase eng k2 \<notin> set (storedNames eng fm3)"
  shows "updateFields eng calendarObject fieldMap = Inr (toString eng c') \<and>
    (\<exists>j. firstPropertyIndex (updateAll eng (deref c r) (fm1 @ [(k1, v1)])) (toLowerCase eng k1) =
         Some j \<and>
       pvalue (cprops (updateAll eng (deref c r) (fm1 @ [(k1, v1)])) ! j) = v1 \<and>
       firstPropertyIndex (deref c' r) (toLowerCase eng k2) = Some j \<and>
       pvalue (cprops (deref c' r) ! j) = v2) \<and>
    (parse eng (JSString (toString eng c')) = Inr c' \<longrightarrow>
       (\<exists>out. updateFields eng calendarObject fieldMap = Inr out \<and>
          parse eng (JSString out) = Inr c'))"
proof -
  let ?t = "deref c r"
  let ?n = "toLowerCase eng k2"
  let ?t1 = "updateAll eng ?t (fm1 @ [(k1, v1)])"
  have out: "updateFields eng calendarObject fieldMap = Inr (toString eng c')"
    using assms(1-3,5) by (simp add: updateFields_def)
  have target: "deref c' r = updateAll eng ?t1 (fm2 @ (k2, v2) # fm3)"
    using updatedComponent_target(2) [OF assms(4,5)] assms(6) by (simp add: updateAll_append)
  have none: "toLowerCase eng k1 \<notin> set (storedNames eng [])"
    by (simp add: storedNames_def)
  have "\<exists>j. firstPropertyIndex ?t1 (toLowerCase eng k1) = Some j \<and> pvalue (cprops ?t1 ! j) = v1"
    using last_entry_decides [OF none, of ?t fm1 v1]
    by (cases "firstPropertyIndex ?t (toLowerCase eng k1)") auto
  then obtain j where j: "firstPropertyIndex ?t1 (toLowerCase eng k1) = Some j"
    "pvalue (cprops ?t1 ! j) = v1"
    by blast
  have "firstPropertyIndex ?t1 ?n = Some j"
    using j(1) assms(7) by simp
  then have "firstPropertyIndex (deref c' r) ?n = Some j \<and> pvalue (cprops (deref c' r) ! j) = v2"
    unfolding target
    using last_entry_decides [OF assms(8), of ?t1 fm2 v2] by simp
  then show ?thesis
    using out j by auto
qed

theorem case_variant_keys_last_wins_witness:
  "updateFields lineEngine (IcalString (printText vcardTree)) caseVariantFields =
     Inr (printText (Component ''vcard''
       [Property ''fn'' [] ''Janet Doe'', Property ''email'' [] ''john@example.com''] [])) \<and>
   toLowerCase lineEngine ''FN'' = toLowerCase lineEngine ''fn'' \<and>
   firstPropertyIndex (updateAll lineEngine vcardTree [(''FN'', ''Jane Doe'')]) ''fn'' = Some 0 \<and>
   firstPropertyIndex (updateAll lineEngine vcardTree caseVariantFields) ''fn'' = Some 0 \<and>
   pvalue (cprops (updateAll lineEngine vcardTree caseVariantFields) ! 0) = ''Janet Doe''"
proof -
  have a: "icalStringOf (IcalString (printText vcardTree)) = JSString (printText vcardTree)"
    by (simp add: icalStringOf_def)
  have b: "printText vcardTree \<noteq> []"
    by (rule printText_not_Nil)
  have c: "parse lineEngine (JSString (printText vcardTree)) = Inr vcardTree"
    using lineEngine_reads_back [OF fixture_trees_wf(2)] by (simp add: lineEngine_toString)
  have d: "findActualComponent vcardTree = Inr Root"
    by code_simp
  have e: "updatedComponent lineEngine vcardTree caseVariantFields =
      Inr (Component ''vcard''
        [Property ''fn'' [] ''Janet Doe'', Property ''email'' [] ''john@example.com''] [])"
    by code_simp
  have f: "caseVariantFields = [] @ (''FN'', ''Jane Doe'') # [] @ (''fn'', ''Janet Doe'') # []"
    by (simp add: caseVariantFields_def)
  have g: "toLowerCase lineEngine ''FN'' = toLowerCase lineEngine ''fn''"
    by code_simp
  have h: "toLowerCase lineEngine ''fn'' \<notin> set (storedNames lineEngine [])"
    by code_simp
  have i: "firstPropertyIndex (updateAll lineEngine vcardTree [(''FN'', ''Jane Doe'')]) ''fn'' =
      Some 0"
    and j: "firstPropertyIndex (updateAll lineEngine vcardTree caseVariantFields) ''fn'' = Some 0"
    and k: "pvalue (cprops (updateAll lineEngine vcardTree caseVariantFields) ! 0) = ''Janet Doe''"
    by code_simp+
  have l: "toString lineEngine = printText"
    by (rule lineEngine_toString)
  show ?thesis
    using case_variant_keys_last_wins [OF a b c d e f g h] g i j k l
    by simp
qed

section \<open>The caller's objects\<close>

lemma mutate_mutate: "mutate r g (mutate r f c) = mutate r (\<lambda>a. g (f a)) c"
proof (cases r)
  case Root
  then show ?thesis by simp
next
  case (Sub i)
  then show ?thesis by (cases "i < length (csubs c)") (simp_all add: list_update_beyond)
qed

lemma updateLoop_length [simp]: "length (updateLoop eng t r fieldMap h) = length h"
  by (induction eng t r fieldMap h rule: updateLoop.induct) (simp_all add: mutateAt_def)

lemma updateLoop_frame: "n \<le> t \<Longrightarrow> take n (updateLoop eng t r fieldMap h) = take n h"
  by (induction eng t r fieldMap h rule: updateLoop.induct) (simp_all add: mutateAt_def)

lemma updateLoop_component:
  "t < length h \<Longrightarrow>
   componentAt (updateLoop eng t r fieldMap h) t = mutate r (\<lambda>a. updateAll eng a fieldMap) (componentAt h t)"
proof (induction eng t r fieldMap h rule: updateLoop.induct)
  case (1 eng t r h)
  show ?case by (cases r) simp_all
next
  case (2 eng t r key v rest h)
  let ?f = "\<lambda>a. updatePropertyWithValue a (toLowerCase eng key) v"
  have "componentAt (mutateAt t r ?f h) t = mutate r ?f (componentAt h t)"
    using "2.prems" by (simp add: mutateAt_def componentAt_def)
  moreover have "t < length (mutateAt t r ?f h)"
    using "2.prems" by (simp add: mutateAt_def)
  ultimately show ?case
    using "2.IH" by (simp add: mutate_mutate)
qed

lemma updateFieldsInHeap_frame:
  "take (length h) (snd (updateFieldsInHeap eng calendarObject fieldMap h)) = h"
  by (simp add: updateFieldsInHeap_def Let_def updateLoop_frame
      split: option.splits sum.splits)

lemma componentAt_new: "componentAt (h @ [ComponentObject c]) (length h) = c"
  by (simp add: componentAt_def)

lemma updateFieldsInHeap_result:
  assumes "readInput h calendarObject = Some input"
  shows "fst (updateFieldsInHeap eng calendarObject fieldMap h) = updateFields eng input fieldMap"
  using assms
  by (simp add: updateFieldsInHeap_def updateFields_def updatedComponent_def Let_def
      updateLoop_component componentAt_new split: option.splits sum.splits)

lemma readInput_frame:
  assumes "take (length h) h' = h" and "readInput h calendarObject = Some input"
  shows "readInput h' calendarObject = Some input"
proof (cases calendarObject)
  case (StringArg s)
  then show ?thesis using assms(2) by (simp add: readInput_def)
next
  case (ObjectArg a)
  then have a: "a < length h"
    using assms(2) by (simp add: readInput_def split: if_splits)
  have "length (take (length h) h') = length h"
    using assms(1) by simp
  then have "length h \<le> length h'"
    by simp
  moreover have "take (length h) h' ! a = h' ! a"
    using a by simp
  then have "h' ! a = h ! a"
    using assms(1) by simp
  ultimately show ?thesis
    using a assms(2) ObjectArg by (simp add: readInput_def)
qed

text \<open>
  C8. Whether the call returns a text or fails, every object that was on the heap before
  the call is the same after it: the only object written is the tree that the parser
  allocated during the call. In particular the argument, read after the call, is the
  wrapper with the same \<^verbatim>\<open>data\<close> and the same other fields (or the same string), and the
  result is the one of \<^verbatim>\<open>updateFields\<close> on that value.
\<close>

theorem input_not_mutated:
  "take (length h) (snd (updateFieldsInHeap eng calendarObject fieldMap h)) = h \<and>
   (\<forall>input. readInput h calendarObject = Some input \<longrightarrow>
      readInput (snd (updateFieldsInHeap eng calendarObject fieldMap h)) calendarObject = Some input \<and>
      fst (updateFieldsInHeap eng calendarObject fieldMap h) = updateFields eng input fieldMap)"
  using updateFieldsInHeap_frame [of h eng calendarObject fieldMap]
    readInput_frame [of h "snd (updateFieldsInHeap eng calendarObject fieldMap h)" calendarObject]
    updateFieldsInHeap_result [of h calendarObject _ eng fieldMap]
  by blast

theorem input_not_mutated_witness:
  "readInput [davObject] (ObjectArg 0) =
     Some (DavObject (JSString (fixtureToString veventTree))
       [(''etag'', JSString ''abc123''),
        (''url'', JSString ''https://example.com/calendar/event.ics'')]) \<and>
   updateFieldsInHeap fixtureEngine (ObjectArg 0) siblingFields [davObject] =
     (Inr (fixtureToString siblingResult), [davObject, ComponentObject siblingResult]) \<and>
   updateFieldsInHeap fixtureEngine (ObjectArg 0) siblingFields
       [WrapperObject JSUndefined [(''url'', JSString ''test.ics'')]] =
     (Inl (Error invalidInputMessage), [WrapperObject JSUndefined [(''url'', JSString ''test.ics'')]])"
proof -
  have a: "readInput [davObject] (ObjectArg 0) =
     Some (DavObject (JSString (fixtureToString veventTree))
       [(''etag'', JSString ''abc123''),
        (''url'', JSString ''https://example.com/calendar/event.ics'')])"
    by (simp add: readInput_def davObject_def)
  have b: "updateFieldsInHeap fixtureEngine (ObjectArg 0) siblingFields [davObject] =
     (Inr (fixtureToString siblingResult), [davObject, ComponentObject siblingResult])"
    by (simp add: updateFieldsInHeap_def readInput_def davObject_def mutateAt_def componentAt_def
        fixture_defs siblingFields_def siblingResult_def)
  have c: "updateFieldsInHeap fixtureEngine (ObjectArg 0) siblingFields
       [WrapperObject JSUndefined [(''url'', JSString ''test.ics'')]] =
     (Inl (Error invalidInputMessage), [WrapperObject JSUndefined [(''url'', JSString ''test.ics'')]])"
    by (simp add: updateFieldsInHeap_def readInput_def icalStringOf_def)
  show ?thesis
    using input_not_mutated [of "[davObject]" fixtureEngine "ObjectArg 0" siblingFields] a b c
    by simp
qed


end
